theory Spec2Isabelle
  imports Complex_Main "HOL-Library.Word"
begin

section \<open>Compile-time integer arithmetic\<close>

text \<open>
  The exponents of a dimension and the numerator and denominator of a power are template
  arguments of type \<^verbatim>\<open>int\<close>, combined in constant expressions with \<^verbatim>\<open>+\<close>, \<^verbatim>\<open>*\<close>,
  \<^verbatim>\<open>/\<close> and \<^verbatim>\<open>%\<close>. An \<^verbatim>\<open>int\<close> has 32 bits: a value is a word of that length, read
  in two's complement by \<open>sint\<close>. A constant expression whose mathematical value leaves
  the range from \<open>INT_MIN\<close> to \<open>INT_MAX\<close> is not a constant expression: the program is
  ill-formed and the expression has no value, \<open>None\<close>. Nothing wraps around.
\<close>

type_synonym cint = "32 word"

definition INT_MIN :: int where
  "INT_MIN = - (2 ^ 31)"

definition INT_MAX :: int where
  "INT_MAX = 2 ^ 31 - 1"

definition in_int_range :: "int \<Rightarrow> bool" where
  "in_int_range x = (INT_MIN \<le> x \<and> x \<le> INT_MAX)"

text \<open>The \<^verbatim>\<open>int\<close> of a constant expression with the mathematical value \<open>x\<close>.\<close>

definition int_constant :: "int \<Rightarrow> cint option" where
  "int_constant x = (if in_int_range x then Some (word_of_int x) else None)"

text \<open>
  The quotient of C++ truncates towards zero and the remainder takes the sign of the
  dividend, unlike \<open>div\<close> and \<open>mod\<close> on the integers of HOL.
\<close>

definition cpp_div :: "int \<Rightarrow> int \<Rightarrow> int" where
  "cpp_div a b = sgn a * sgn b * (\<bar>a\<bar> div \<bar>b\<bar>)"

definition cpp_mod :: "int \<Rightarrow> int \<Rightarrow> int" where
  "cpp_mod a b = a - cpp_div a b * b"

text \<open>\<^verbatim>\<open>a + b\<close>, \<^verbatim>\<open>a * b\<close>, \<^verbatim>\<open>a / b\<close> and \<^verbatim>\<open>a % b\<close> on \<^verbatim>\<open>int\<close> in a constant expression.
  Division by zero is undefined, and where the quotient is not representable both the
  quotient and the remainder are undefined.\<close>

definition int_plus :: "cint \<Rightarrow> cint \<Rightarrow> cint option" where
  "int_plus a b = int_constant (sint a + sint b)"

definition int_times :: "cint \<Rightarrow> cint \<Rightarrow> cint option" where
  "int_times a b = int_constant (sint a * sint b)"

definition int_divide :: "cint \<Rightarrow> cint \<Rightarrow> cint option" where
  "int_divide a b = (if b = 0 then None else int_constant (cpp_div (sint a) (sint b)))"

definition int_modulo :: "cint \<Rightarrow> cint \<Rightarrow> cint option" where
  "int_modulo a b =
     (case int_divide a b of
        None \<Rightarrow> None
      | Some q \<Rightarrow> int_constant (cpp_mod (sint a) (sint b)))"

section \<open>Dimension.hpp\<close>

text \<open>
  \<^verbatim>\<open>dimension_t<BASES...>\<close>: every element of the pack is a specialisation
  \<^verbatim>\<open>BASE_T<N>\<close> of a class template with one \<^verbatim>\<open>int\<close> parameter. A dimension is the
  ordered list of the pairs (template, exponent); \<open>'b\<close> is the type of the names of
  the base templates. \<^verbatim>\<open>base_types_t<BASE_TYPES...>\<close> is the ordered list of templates.
  Two dimensions are the same type exactly when the lists are equal.

  A type alias that cannot be formed (no matching specialisation, an unsatisfied
  constraint, a failed \<^verbatim>\<open>static_assert\<close>, an ill-formed template argument) is a
  compile-time rejection: \<open>None\<close>.
\<close>

type_synonym 'b dimension = "('b \<times> cint) list"

type_synonym 'b base_types = "'b list"

definition bases :: "'b dimension \<Rightarrow> 'b base_types" where
  "bases d = map fst d"

definition exponents :: "'b dimension \<Rightarrow> cint list" where
  "exponents d = map snd d"

text \<open>The exponents as integers.\<close>

definition exponent_values :: "'b dimension \<Rightarrow> int list" where
  "exponent_values d = map sint (exponents d)"

text \<open>
  \<^verbatim>\<open>is_valid_power<integer_sequence<int, EXPONENTS...>, NUM, DEN>
     = (DEN != 0) && (((EXPONENTS * NUM) % DEN == 0) && ...)\<close>.
  The fold expands to \<^verbatim>\<open>E1 && (E2 && (... && En))\<close>, the empty fold is \<^verbatim>\<open>true\<close>, and
  \<^verbatim>\<open>&&\<close> evaluates its right operand only when the left one is true. The value is
  \<open>None\<close> where an operand that is evaluated is not a constant expression.
\<close>

fun is_valid_power_fold :: "cint list \<Rightarrow> cint \<Rightarrow> cint \<Rightarrow> bool option" where
  "is_valid_power_fold [] num den = Some True"
| "is_valid_power_fold (e # es) num den =
     (case int_times e num of
        None \<Rightarrow> None
      | Some p \<Rightarrow>
          (case int_modulo p den of
             None \<Rightarrow> None
           | Some r \<Rightarrow> if r = 0 then is_valid_power_fold es num den else Some False))"

definition is_valid_power :: "cint list \<Rightarrow> cint \<Rightarrow> cint \<Rightarrow> bool option" where
  "is_valid_power es num den =
     (if den \<noteq> 0 then is_valid_power_fold es num den else Some False)"

text \<open>
  \<^verbatim>\<open>detail::dimension_product\<close>: the only specialisation matches
  \<^verbatim>\<open>dimension_t<BASE_TYPES<LEFT_EXPONENTS>...>\<close> and
  \<^verbatim>\<open>dimension_t<BASE_TYPES<RIGHT_EXPONENTS>...>\<close> with one pack \<^verbatim>\<open>BASE_TYPES\<close> for both
  sides, and its \<^verbatim>\<open>type\<close> is \<^verbatim>\<open>dimension_t<BASE_TYPES<LEFT_EXPONENTS + RIGHT_EXPONENTS>...>\<close>.
  The primary template has no definition. Every sum is a template argument, so all of
  them have to be constant expressions (\<open>those\<close> gives the list when every element has
  a value).
\<close>

definition dimension_product :: "'b dimension \<Rightarrow> 'b dimension \<Rightarrow> 'b dimension option" where
  "dimension_product left right =
     (if bases left = bases right
      then those (map (\<lambda>((b, l), (c, r)). map_option (Pair b) (int_plus l r)) (zip left right))
      else None)"

text \<open>
  \<^verbatim>\<open>detail::dimension_exponent\<close>: the specialisation requires \<^verbatim>\<open>is_valid_power\<close> of the
  exponents, and its \<^verbatim>\<open>type\<close> is \<^verbatim>\<open>dimension_t<BASE_TYPES<(EXPONENTS * POW_NUM) / POW_DEN>...>\<close>.
\<close>

definition dimension_exponent :: "'b dimension \<Rightarrow> cint \<Rightarrow> cint \<Rightarrow> 'b dimension option" where
  "dimension_exponent d pow_num pow_den =
     (case is_valid_power (exponents d) pow_num pow_den of
        Some True \<Rightarrow>
          those (map (\<lambda>(b, e). map_option (Pair b)
                        (case int_times e pow_num of
                           None \<Rightarrow> None
                         | Some p \<Rightarrow> int_divide p pow_den)) d)
      | _ \<Rightarrow> None)"

text \<open>
  An exponent \<open>e\<close> passes the test of \<^verbatim>\<open>is_valid_power\<close> and has a power: the product
  with the numerator is an \<^verbatim>\<open>int\<close>, the denominator divides it, and the quotient is an
  \<^verbatim>\<open>int\<close>.
\<close>

definition exact_power :: "int \<Rightarrow> int \<Rightarrow> int \<Rightarrow> bool" where
  "exact_power e num den =
     (in_int_range (e * num) \<and> den dvd e * num \<and> in_int_range (e * num div den))"

text \<open>\<^verbatim>\<open>scalar_dimension_type<base_types_t<BASE_TYPES...>>::type = dimension_t<BASE_TYPES<0>...>\<close>.\<close>

definition scalar_dimension_type :: "'b base_types \<Rightarrow> 'b dimension" where
  "scalar_dimension_type bs = map (\<lambda>b. (b, 0)) bs"

text \<open>
  \<^verbatim>\<open>unit_dimension_type\<close>: the \<^verbatim>\<open>static_assert\<close> wants the base among the base types;
  the exponent is the truth value of \<^verbatim>\<open>is_same_v\<close> converted to \<^verbatim>\<open>int\<close>.
\<close>

definition unit_dimension_type :: "'b base_types \<Rightarrow> 'b \<Rightarrow> 'b dimension option" where
  "unit_dimension_type bs base =
     (if list_ex (\<lambda>b. b = base) bs
      then Some (map (\<lambda>b. (b, if b = base then 1 else 0)) bs)
      else None)"

text \<open>\<^verbatim>\<open>dimension_inverse_t<DIM> = dimension_exponent<DIM, -1>::type\<close> (\<^verbatim>\<open>POW_DEN\<close> defaults to 1).\<close>

definition dimension_inverse :: "'b dimension \<Rightarrow> 'b dimension option" where
  "dimension_inverse d = dimension_exponent d (- 1) 1"

text \<open>\<^verbatim>\<open>dimension_quotient_t<L, R> = dimension_product_t<L, dimension_inverse_t<R>>\<close>.\<close>

definition dimension_quotient :: "'b dimension \<Rightarrow> 'b dimension \<Rightarrow> 'b dimension option" where
  "dimension_quotient left right =
     (case dimension_inverse right of
        None \<Rightarrow> None
      | Some right_inverse \<Rightarrow> dimension_product left right_inverse)"

text \<open>\<^verbatim>\<open>empty_dimension<DIM> = same_as<DIM, dimension_exponent_t<DIM, 0>>\<close>.\<close>

definition empty_dimension :: "'b dimension \<Rightarrow> bool" where
  "empty_dimension d = (dimension_exponent d 0 1 = Some d)"

section \<open>Magnitudes\<close>

text \<open>
  The magnitude type \<open>'a\<close> of a quantity, an absolute or a linear unit is a type with the
  operations the operator at hand uses; every operand of an operation has the same
  magnitude type. Two kinds of instances matter. A \<open>32 word\<close> is the \<^verbatim>\<open>unsigned\<close> of
  C++: sum, difference and product are taken modulo \<open>2 ^ 32\<close> and \<open>div\<close> is the
  truncating quotient. A field (the rationals, the reals) is exact arithmetic, with
  \<open>div\<close> the exact quotient. Signed integers, whose overflow is undefined, and
  floating-point numbers, which round, are no instances.

  \<^verbatim>\<open>a / b\<close> on magnitudes: a quotient by zero is undefined for an integer and no number
  for a floating-point type. It has no value here.
\<close>

definition value_divide :: "'a :: {divide, zero} \<Rightarrow> 'a \<Rightarrow> 'a option" where
  "value_divide a b = (if b = 0 then None else Some (a div b))"

text \<open>\<^verbatim>\<open>value_type()\<close>: value-initialisation of an arithmetic type.\<close>

definition value_type_init :: "'a :: zero" where
  "value_type_init = 0"

section \<open>Quantity.hpp\<close>

text \<open>
  \<^verbatim>\<open>quantity<DIMENSION, VALUE_TYPE>\<close> has one data member, \<^verbatim>\<open>mStandardValue\<close>; the
  dimension is a template argument. The record keeps the dimension beside the value, so
  that an operation the compiler rejects for the dimensions of its operands has no
  result: \<open>None\<close>.
\<close>

record ('b, 'a) quantity =
  q_dimension :: "'b dimension"
  q_mStandardValue :: 'a

text \<open>\<^verbatim>\<open>constexpr static bool is_scalar = rgf::empty_dimension<dimension>\<close>.\<close>

definition is_scalar :: "'b dimension \<Rightarrow> bool" where
  "is_scalar d = empty_dimension d"

text \<open>
  \<^verbatim>\<open>constexpr quantity() = default\<close>, with the default member initialiser
  \<^verbatim>\<open>value_type mStandardValue = value_type()\<close>.
\<close>

definition quantity_default :: "'b dimension \<Rightarrow> ('b, 'a :: zero) quantity" where
  "quantity_default d = \<lparr>q_dimension = d, q_mStandardValue = value_type_init\<rparr>"

text \<open>\<^verbatim>\<open>quantity(std::in_place_t, value_type aStandardValue)\<close>.\<close>

definition quantity_in_place :: "'b dimension \<Rightarrow> 'a \<Rightarrow> ('b, 'a) quantity" where
  "quantity_in_place d aStandardValue = \<lparr>q_dimension = d, q_mStandardValue = aStandardValue\<rparr>"

definition quantity_get_standard :: "('b, 'a) quantity \<Rightarrow> 'a" where
  "quantity_get_standard q = q_mStandardValue q"

text \<open>\<^verbatim>\<open>operator value_type() const requires is_scalar\<close>.\<close>

definition quantity_to_value :: "('b, 'a) quantity \<Rightarrow> 'a option" where
  "quantity_to_value q =
     (if is_scalar (q_dimension q) then Some (q_mStandardValue q) else None)"

text \<open>\<^verbatim>\<open>operator+(const quantity& aLeft, T aRight) requires is_scalar\<close>.\<close>

definition quantity_plus_value :: "('b, 'a :: plus) quantity \<Rightarrow> 'a \<Rightarrow> ('b, 'a) quantity option" where
  "quantity_plus_value aLeft aRight =
     (if is_scalar (q_dimension aLeft)
      then Some (quantity_in_place (q_dimension aLeft) (quantity_get_standard aLeft + aRight))
      else None)"

section \<open>LinearUnit.hpp\<close>

text \<open>
  \<^verbatim>\<open>linear_unit<UNIT_DIMENSION, UNIT_VALUE_TYPE>\<close> has one data member,
  \<^verbatim>\<open>mConversionFactor\<close>, initialised to 1.
\<close>

record ('b, 'a) linear_unit =
  u_dimension :: "'b dimension"
  u_mConversionFactor :: 'a


definition linear_unit_in_place :: "'b dimension \<Rightarrow> 'a \<Rightarrow> ('b, 'a) linear_unit" where
  "linear_unit_in_place d aConversionFactor =
     \<lparr>u_dimension = d, u_mConversionFactor = aConversionFactor\<rparr>"







definition scaled_down ::
  "('b, 'a :: {divide, zero}) linear_unit \<Rightarrow> 'a \<Rightarrow> ('b, 'a) linear_unit option" where
  "scaled_down u aFactor =
     map_option (linear_unit_in_place (u_dimension u)) (value_divide (u_mConversionFactor u) aFactor)"




section \<open>Absolute.hpp\<close>

text \<open>
  \<^verbatim>\<open>absolute<ABSOLUTE_DIMENSION, ABSOLUTE_VALUE_TYPE>\<close> has the one data member
  \<^verbatim>\<open>mStandardValue\<close> as well, and \<^verbatim>\<open>quantity_type\<close> is the quantity of its dimension
  and magnitude type.
\<close>

record ('b, 'a) absolute =
  a_dimension :: "'b dimension"
  a_mStandardValue :: 'a

definition absolute_default :: "'b dimension \<Rightarrow> ('b, 'a :: zero) absolute" where
  "absolute_default d = \<lparr>a_dimension = d, a_mStandardValue = value_type_init\<rparr>"

definition absolute_in_place :: "'b dimension \<Rightarrow> 'a \<Rightarrow> ('b, 'a) absolute" where
  "absolute_in_place d aStandardValue = \<lparr>a_dimension = d, a_mStandardValue = aStandardValue\<rparr>"

definition absolute_get_standard :: "('b, 'a) absolute \<Rightarrow> 'a" where
  "absolute_get_standard a = a_mStandardValue a"

text \<open>
  The addition operators, in the order of the source. Overload 1:
  \<^verbatim>\<open>operator+(const absolute& aLeft, const quantity_type& aRight)\<close>.
\<close>

definition absolute_plus_quantity ::
  "('b, 'a :: plus) absolute \<Rightarrow> ('b, 'a) quantity \<Rightarrow> ('b, 'a) absolute option" where
  "absolute_plus_quantity aLeft aRight =
     (if q_dimension aRight = a_dimension aLeft
      then Some (absolute_in_place (a_dimension aLeft)
                   (absolute_get_standard aLeft + quantity_get_standard aRight))
      else None)"

text \<open>Overload 2: \<^verbatim>\<open>operator+(const absolute& aLeft, T aRight) requires is_scalar\<close>.\<close>

definition absolute_plus_value ::
  "('b, 'a :: plus) absolute \<Rightarrow> 'a \<Rightarrow> ('b, 'a) absolute option" where
  "absolute_plus_value aLeft aRight =
     (if is_scalar (a_dimension aLeft)
      then Some (absolute_in_place (a_dimension aLeft) (absolute_get_standard aLeft + aRight))
      else None)"

text \<open>
  Overload 3:
  \<^verbatim>\<open>operator+(const quantity_type<dimension, T>& aLeft, const absolute& aRight) requires is_scalar\<close>
  returns \<^verbatim>\<open>{ std::in_place, aLeft + aRight.get_standard() }\<close>. The left parameter is read as
  a quantity of the dimension of the absolute. The sum in the body is the scalar-only
  \<^verbatim>\<open>operator+(const quantity&, T)\<close>, and the quantity it returns initialises the
  \<^verbatim>\<open>value_type\<close> parameter of the constructor through the scalar-only conversion.
  No other \<^verbatim>\<open>operator+\<close> of the two classes takes a quantity on the left and an absolute
  on the right: overloads 1 and 2 want an absolute on the left, overload 4 and the
  operators of \<^verbatim>\<open>quantity\<close> want an arithmetic type or a quantity where the absolute
  stands, and no implicit conversion leads from an absolute or to one.
\<close>

definition quantity_plus_absolute ::
  "('b, 'a :: plus) quantity \<Rightarrow> ('b, 'a) absolute \<Rightarrow> ('b, 'a) absolute option" where
  "quantity_plus_absolute aLeft aRight =
     (if is_scalar (a_dimension aRight) \<and> q_dimension aLeft = a_dimension aRight
      then (case quantity_plus_value aLeft (absolute_get_standard aRight) of
              None \<Rightarrow> None
            | Some s \<Rightarrow>
                (case quantity_to_value s of
                   None \<Rightarrow> None
                 | Some v \<Rightarrow> Some (absolute_in_place (a_dimension aRight) v)))
      else None)"

text \<open>Overload 4: \<^verbatim>\<open>operator+(T aLeft, const absolute& aRight) requires is_scalar\<close>.\<close>

definition value_plus_absolute ::
  "'a :: plus \<Rightarrow> ('b, 'a) absolute \<Rightarrow> ('b, 'a) absolute option" where
  "value_plus_absolute aLeft aRight =
     (if is_scalar (a_dimension aRight)
      then Some (absolute_in_place (a_dimension aRight) (aLeft + absolute_get_standard aRight))
      else None)"

text \<open>\<^verbatim>\<open>quantity_type operator-(const absolute& aLeft, const absolute& aRight)\<close>.\<close>

definition absolute_minus ::
  "('b, 'a :: minus) absolute \<Rightarrow> ('b, 'a) absolute \<Rightarrow> ('b, 'a) quantity option" where
  "absolute_minus aLeft aRight =
     (if a_dimension aRight = a_dimension aLeft
      then Some (quantity_in_place (a_dimension aLeft)
                   (absolute_get_standard aLeft - absolute_get_standard aRight))
      else None)"

text \<open>\<^verbatim>\<open>operator==(const absolute&, const absolute&) = default\<close> compares the one member.\<close>

definition absolute_eq :: "('b, 'a) absolute \<Rightarrow> ('b, 'a) absolute \<Rightarrow> bool option" where
  "absolute_eq aLeft aRight =
     (if a_dimension aRight = a_dimension aLeft
      then Some (a_mStandardValue aLeft = a_mStandardValue aRight)
      else None)"

definition to_absolute :: "('b, 'a) quantity \<Rightarrow> ('b, 'a) absolute" where
  "to_absolute aQuantity =
     absolute_in_place (q_dimension aQuantity) (quantity_get_standard aQuantity)"

definition to_quantity :: "('b, 'a) absolute \<Rightarrow> ('b, 'a) quantity" where
  "to_quantity aAbsolute =
     quantity_in_place (a_dimension aAbsolute) (absolute_get_standard aAbsolute)"

section \<open>Facts about the compile-time arithmetic\<close>

lemma in_int_range_sint [simp]: "in_int_range (sint (w :: cint))"
  using sint_ge [of w] sint_lt [of w] by (simp add: in_int_range_def INT_MIN_def INT_MAX_def)

lemma sint_word_of_int: "in_int_range x \<Longrightarrow> sint (word_of_int x :: cint) = x"
  by (simp add: sint_sbintrunc' signed_take_bit_int_eq_self in_int_range_def INT_MIN_def INT_MAX_def)

lemma int_constant_Some_iff: "int_constant x = Some w \<longleftrightarrow> in_int_range x \<and> sint w = x"
  by (auto simp: int_constant_def sint_word_of_int)

lemma int_constant_None_iff: "int_constant x = None \<longleftrightarrow> \<not> in_int_range x"
  unfolding int_constant_def by (cases "in_int_range x") simp_all

lemma sint_eq_0_iff: "sint (w :: cint) = 0 \<longleftrightarrow> w = 0"
  by (rule signed_eq_0_iff)

lemma int_plus_Some_iff:
  "int_plus a b = Some c \<longleftrightarrow> in_int_range (sint a + sint b) \<and> sint c = sint a + sint b"
  by (simp add: int_plus_def int_constant_Some_iff)

lemma int_times_Some_iff:
  "int_times a b = Some c \<longleftrightarrow> in_int_range (sint a * sint b) \<and> sint c = sint a * sint b"
  by (simp add: int_times_def int_constant_Some_iff)

lemma int_divide_Some_iff:
  "int_divide a b = Some c \<longleftrightarrow>
     b \<noteq> 0 \<and> in_int_range (cpp_div (sint a) (sint b)) \<and> sint c = cpp_div (sint a) (sint b)"
  by (simp add: int_divide_def int_constant_Some_iff)

lemma cpp_mod_sgn: "cpp_mod a b = sgn a * (\<bar>a\<bar> mod \<bar>b\<bar>)"
proof -
  have a: "a = sgn a * \<bar>a\<bar>" by (simp add: mult_sgn_abs)
  have "cpp_mod a b = sgn a * \<bar>a\<bar> - sgn a * ((\<bar>a\<bar> div \<bar>b\<bar>) * (sgn b * b))"
    unfolding cpp_mod_def cpp_div_def using a by (simp add: algebra_simps)
  also have "sgn b * b = \<bar>b\<bar>" by (simp add: abs_sgn mult.commute)
  also have "sgn a * \<bar>a\<bar> - sgn a * ((\<bar>a\<bar> div \<bar>b\<bar>) * \<bar>b\<bar>) = sgn a * (\<bar>a\<bar> - (\<bar>a\<bar> div \<bar>b\<bar>) * \<bar>b\<bar>)"
    by (simp add: algebra_simps)
  also have "\<bar>a\<bar> - (\<bar>a\<bar> div \<bar>b\<bar>) * \<bar>b\<bar> = \<bar>a\<bar> mod \<bar>b\<bar>"
    by (simp add: minus_div_mult_eq_mod)
  finally show ?thesis .
qed

lemma cpp_mod_eq_0_iff: "cpp_mod a b = 0 \<longleftrightarrow> b dvd a"
proof -
  have "cpp_mod a b = 0 \<longleftrightarrow> a = 0 \<or> \<bar>a\<bar> mod \<bar>b\<bar> = 0"
    by (simp add: cpp_mod_sgn sgn_eq_0_iff)
  also have "\<dots> \<longleftrightarrow> a = 0 \<or> \<bar>b\<bar> dvd \<bar>a\<bar>"
    by (simp add: mod_eq_0_iff_dvd)
  also have "\<dots> \<longleftrightarrow> b dvd a"
    by auto
  finally show ?thesis .
qed

lemma cpp_div_exact:
  assumes "b dvd a" and "b \<noteq> 0"
  shows "cpp_div a b * b = a" and "cpp_div a b = a div b"
proof -
  from assms have "cpp_mod a b = 0" by (simp add: cpp_mod_eq_0_iff)
  then show "cpp_div a b * b = a" by (simp add: cpp_mod_def)
  with assms show "cpp_div a b = a div b" by (metis nonzero_mult_div_cancel_right)
qed

lemma cpp_mod_between:
  "(0 \<le> a \<longrightarrow> 0 \<le> cpp_mod a b \<and> cpp_mod a b \<le> a)
   \<and> (a \<le> 0 \<longrightarrow> a \<le> cpp_mod a b \<and> cpp_mod a b \<le> 0)"
proof -
  have m0: "0 \<le> \<bar>a\<bar> mod \<bar>b\<bar>"
    by (cases "b = 0") simp_all
  have m1: "\<bar>a\<bar> mod \<bar>b\<bar> \<le> \<bar>a\<bar>"
    by (simp add: zmod_le_nonneg_dividend)
  consider "a = 0" | "0 < a" | "a < 0" by linarith
  then show ?thesis
  proof cases
    case 1
    then show ?thesis by (simp add: cpp_mod_sgn)
  next
    case 2
    then have "cpp_mod a b = \<bar>a\<bar> mod \<bar>b\<bar>" by (simp add: cpp_mod_sgn)
    with m0 m1 2 show ?thesis by simp
  next
    case 3
    then have "cpp_mod a b = - (\<bar>a\<bar> mod \<bar>b\<bar>)" by (simp add: cpp_mod_sgn)
    with m0 m1 3 show ?thesis by simp
  qed
qed

lemma in_int_range_cpp_mod:
  assumes "in_int_range a"
  shows "in_int_range (cpp_mod a b)"
proof (cases "0 \<le> a")
  case True
  with cpp_mod_between [of a b] have "0 \<le> cpp_mod a b" "cpp_mod a b \<le> a" by simp_all
  with assms show ?thesis by (simp add: in_int_range_def INT_MIN_def INT_MAX_def)
next
  case False
  with cpp_mod_between [of a b] have "a \<le> cpp_mod a b" "cpp_mod a b \<le> 0" by simp_all
  with assms show ?thesis by (simp add: in_int_range_def INT_MIN_def INT_MAX_def)
qed

lemma int_divide_None_iff:
  "int_divide a b = None \<longleftrightarrow> b = 0 \<or> \<not> in_int_range (cpp_div (sint a) (sint b))"
  by (simp add: int_divide_def int_constant_None_iff)

lemma int_modulo_Some_iff:
  "int_modulo a b = Some r \<longleftrightarrow>
     b \<noteq> 0 \<and> in_int_range (cpp_div (sint a) (sint b)) \<and> sint r = cpp_mod (sint a) (sint b)"
proof (cases "int_divide a b")
  case None
  then have "int_modulo a b = None" by (simp add: int_modulo_def)
  moreover from None have "b = 0 \<or> \<not> in_int_range (cpp_div (sint a) (sint b))"
    by (simp add: int_divide_None_iff)
  ultimately show ?thesis by auto
next
  case (Some q)
  then have "b \<noteq> 0" "in_int_range (cpp_div (sint a) (sint b))"
    by (simp_all add: int_divide_Some_iff)
  with Some show ?thesis
    by (simp add: int_modulo_def int_constant_Some_iff in_int_range_cpp_mod)
qed

lemma int_modulo_None_iff:
  "int_modulo a b = None \<longleftrightarrow> b = 0 \<or> \<not> in_int_range (cpp_div (sint a) (sint b))"
proof (cases "int_divide a b")
  case None
  then have "int_modulo a b = None" by (simp add: int_modulo_def)
  moreover from None have "b = 0 \<or> \<not> in_int_range (cpp_div (sint a) (sint b))"
    by (simp add: int_divide_None_iff)
  ultimately show ?thesis by auto
next
  case (Some q)
  then have "b \<noteq> 0" "in_int_range (cpp_div (sint a) (sint b))"
    by (simp_all add: int_divide_Some_iff)
  with Some show ?thesis
    by (simp add: int_modulo_def int_constant_None_iff in_int_range_cpp_mod)
qed

lemma is_valid_power_fold_True_iff:
  assumes "den \<noteq> 0"
  shows "is_valid_power_fold es num den = Some True
           \<longleftrightarrow> (\<forall>e \<in> set es. exact_power (sint e) (sint num) (sint den))"
proof (induction es)
  case Nil
  show ?case by simp
next
  case (Cons e es)
  have den: "sint den \<noteq> 0" using assms by (simp add: sint_eq_0_iff)
  show ?case
  proof (cases "int_times e num")
    case None
    then have "\<not> in_int_range (sint e * sint num)"
      by (simp add: int_times_def int_constant_None_iff)
    with None show ?thesis by (simp add: exact_power_def)
  next
    case (Some p)
    then have p: "in_int_range (sint e * sint num)" "sint p = sint e * sint num"
      by (simp_all add: int_times_Some_iff)
    show ?thesis
    proof (cases "int_modulo p den")
      case None
      with assms p have "\<not> in_int_range (cpp_div (sint e * sint num) (sint den))"
        by (simp add: int_modulo_None_iff)
      moreover have "sint den dvd sint e * sint num \<Longrightarrow>
          cpp_div (sint e * sint num) (sint den) = sint e * sint num div sint den"
        using den by (simp add: cpp_div_exact(2))
      ultimately have "\<not> exact_power (sint e) (sint num) (sint den)"
        by (auto simp: exact_power_def)
      with Some None show ?thesis by simp
    next
      case (Some r)
      then have r: "in_int_range (cpp_div (sint e * sint num) (sint den))"
        "sint r = cpp_mod (sint e * sint num) (sint den)"
        by (simp_all add: int_modulo_Some_iff p)
      have r0: "r = 0 \<longleftrightarrow> sint den dvd sint e * sint num"
        using r(2) by (simp add: sint_eq_0_iff [symmetric] cpp_mod_eq_0_iff)
      show ?thesis
      proof (cases "r = 0")
        case True
        with r0 have d: "sint den dvd sint e * sint num" by simp
        from cpp_div_exact(2) [OF d den] r(1) p(1) d
        have "exact_power (sint e) (sint num) (sint den)" by (simp add: exact_power_def)
        with \<open>int_times e num = Some p\<close> Some True Cons.IH show ?thesis by simp
      next
        case False
        with r0 have "\<not> exact_power (sint e) (sint num) (sint den)" by (simp add: exact_power_def)
        with \<open>int_times e num = Some p\<close> Some False show ?thesis by simp
      qed
    qed
  qed
qed

lemma is_valid_power_True_iff:
  "is_valid_power es num den = Some True
     \<longleftrightarrow> den \<noteq> 0 \<and> (\<forall>e \<in> set es. exact_power (sint e) (sint num) (sint den))"
  by (simp add: is_valid_power_def is_valid_power_fold_True_iff)

lemma those_eq_Some_iff: "those xs = Some ys \<longleftrightarrow> xs = map Some ys"
proof (induction xs arbitrary: ys)
  case Nil
  show ?case by auto
next
  case (Cons x xs)
  show ?case
    by (cases x; cases ys) (auto simp: Cons.IH split: option.splits)
qed

lemma those_map_Some_iff:
  "those (map f xs) = Some ys
     \<longleftrightarrow> length ys = length xs \<and> (\<forall>i < length xs. f (xs ! i) = Some (ys ! i))"
  by (auto simp: those_eq_Some_iff list_eq_iff_nth_eq)

lemma map_option_Pair_eq: "map_option (Pair b) x = Some y \<longleftrightarrow> fst y = b \<and> x = Some (snd y)"
  by (cases x; cases y) auto

lemma option_eqI: "(\<And>c. x = Some c \<longleftrightarrow> y = Some c) \<Longrightarrow> x = y"
  by (cases x; cases y) auto

lemma bases_nth: "i < length d \<Longrightarrow> bases d ! i = fst (d ! i)"
  by (simp add: bases_def)

lemma exponent_values_nth: "i < length d \<Longrightarrow> exponent_values d ! i = sint (snd (d ! i))"
  by (simp add: exponent_values_def exponents_def)

lemma length_bases [simp]: "length (bases d) = length d"
  by (simp add: bases_def)

lemma length_exponents [simp]: "length (exponents d) = length d"
  by (simp add: exponents_def)

lemma length_exponent_values [simp]: "length (exponent_values d) = length d"
  by (simp add: exponent_values_def)

lemma bases_eq_iff:
  "bases c = bases d \<longleftrightarrow> length c = length d \<and> (\<forall>i < length d. fst (c ! i) = fst (d ! i))"
  by (auto simp: bases_def list_eq_iff_nth_eq)

lemma exponent_values_eq_iff:
  "exponent_values c = exponent_values d
     \<longleftrightarrow> length c = length d \<and> (\<forall>i < length d. sint (snd (c ! i)) = sint (snd (d ! i)))"
  by (auto simp: exponent_values_def exponents_def list_eq_iff_nth_eq)

lemma dimension_eqI:
  assumes "bases c = bases d" and "exponent_values c = exponent_values d"
  shows "c = d"
proof (rule nth_equalityI)
  from assms(1) show len: "length c = length d" by (simp add: bases_eq_iff)
  fix i assume i: "i < length c"
  from assms(1) i len have f: "fst (c ! i) = fst (d ! i)"
    by (simp add: bases_eq_iff)
  from assms(2) i len have "sint (snd (c ! i)) = sint (snd (d ! i))"
    by (simp add: exponent_values_eq_iff)
  then have "snd (c ! i) = snd (d ! i)" by (rule signed_word_eqI)
  with f show "c ! i = d ! i" by (simp add: prod_eq_iff)
qed

section \<open>Facts about the dimension algebra\<close>

lemma dimension_product_Some_iff:
  "dimension_product a b = Some c \<longleftrightarrow>
     bases a = bases b \<and> bases c = bases a
     \<and> (\<forall>i < length a. in_int_range (exponent_values a ! i + exponent_values b ! i)
           \<and> exponent_values c ! i = exponent_values a ! i + exponent_values b ! i)"
proof (cases "bases a = bases b")
  case False
  then show ?thesis by (simp add: dimension_product_def)
next
  case True
  then have len: "length b = length a" by (simp add: bases_eq_iff)
  have "dimension_product a b = Some c \<longleftrightarrow>
      length c = length a \<and> (\<forall>i < length a. fst (c ! i) = fst (a ! i)
         \<and> int_plus (snd (a ! i)) (snd (b ! i)) = Some (snd (c ! i)))"
    using True len
    by (simp add: dimension_product_def those_map_Some_iff case_prod_beta map_option_Pair_eq del: map_option_eq_Some)
  also have "\<dots> \<longleftrightarrow> bases c = bases a
     \<and> (\<forall>i < length a. in_int_range (exponent_values a ! i + exponent_values b ! i)
           \<and> exponent_values c ! i = exponent_values a ! i + exponent_values b ! i)"
    using len by (auto simp: bases_eq_iff int_plus_Some_iff exponent_values_nth)
  finally show ?thesis using True by simp
qed

lemma those_map_None_iff: "those (map f xs) = None \<longleftrightarrow> (\<exists>x \<in> set xs. f x = None)"
  by (induction xs) (auto split: option.splits)

lemma those_map_defined_iff: "those (map f xs) \<noteq> None \<longleftrightarrow> (\<forall>x \<in> set xs. f x \<noteq> None)"
  by (simp add: those_map_None_iff)

lemma all_exponent_values_iff:
  "(\<forall>e \<in> set (exponents a). P (sint e)) \<longleftrightarrow> (\<forall>i < length a. P (exponent_values a ! i))"
  by (simp add: all_set_conv_all_nth exponent_values_def)

lemma power_exponent_Some_iff:
  assumes "den \<noteq> 0" and "exact_power (sint e) (sint num) (sint den)"
  shows "(case int_times e num of None \<Rightarrow> None | Some p \<Rightarrow> int_divide p den) = Some q
           \<longleftrightarrow> sint q = sint e * sint num div sint den"
proof -
  from assms(2) have r: "in_int_range (sint e * sint num)" and d: "sint den dvd sint e * sint num"
    and q: "in_int_range (sint e * sint num div sint den)"
    by (simp_all add: exact_power_def)
  have den: "sint den \<noteq> 0" using assms(1) by (simp add: sint_eq_0_iff)
  from r obtain p where p: "int_times e num = Some p"
    by (simp add: int_times_def int_constant_def)
  then have sp: "sint p = sint e * sint num" by (simp add: int_times_Some_iff)
  show ?thesis
    using p sp assms(1) q cpp_div_exact(2) [OF d den] by (simp add: int_divide_Some_iff)
qed

lemma dimension_exponent_Some_iff:
  "dimension_exponent a num den = Some d \<longleftrightarrow>
     den \<noteq> 0 \<and> bases d = bases a
     \<and> (\<forall>i < length a. exact_power (exponent_values a ! i) (sint num) (sint den)
           \<and> exponent_values d ! i = exponent_values a ! i * sint num div sint den)"
proof (cases "is_valid_power (exponents a) num den = Some True")
  case False
  then have "dimension_exponent a num den = None"
    by (auto simp: dimension_exponent_def split: option.splits bool.splits)
  moreover from False have "\<not> (den \<noteq> 0 \<and>
      (\<forall>i < length a. exact_power (exponent_values a ! i) (sint num) (sint den)))"
    by (simp add: is_valid_power_True_iff
        all_exponent_values_iff [where P = "\<lambda>x. exact_power x (sint num) (sint den)"])
  ultimately show ?thesis by auto
next
  case True
  then have den: "den \<noteq> 0"
    and ex: "\<forall>i < length a. exact_power (exponent_values a ! i) (sint num) (sint den)"
    by (simp_all add: is_valid_power_True_iff
        all_exponent_values_iff [where P = "\<lambda>x. exact_power x (sint num) (sint den)"])
  have "dimension_exponent a num den = Some d \<longleftrightarrow>
      length d = length a \<and> (\<forall>i < length a. fst (d ! i) = fst (a ! i)
         \<and> (case int_times (snd (a ! i)) num of None \<Rightarrow> None | Some p \<Rightarrow> int_divide p den)
              = Some (snd (d ! i)))"
    using True
    by (simp add: dimension_exponent_def those_map_Some_iff case_prod_beta map_option_Pair_eq
        del: map_option_eq_Some)
  also have "\<dots> \<longleftrightarrow> length d = length a \<and> (\<forall>i < length a. fst (d ! i) = fst (a ! i)
         \<and> sint (snd (d ! i)) = sint (snd (a ! i)) * sint num div sint den)"
  proof -
    have "(case int_times (snd (a ! i)) num of None \<Rightarrow> None | Some p \<Rightarrow> int_divide p den)
              = Some (snd (d ! i))
          \<longleftrightarrow> sint (snd (d ! i)) = sint (snd (a ! i)) * sint num div sint den"
      if "i < length a" for i
      using ex that by (intro power_exponent_Some_iff den) (simp add: exponent_values_nth)
    then show ?thesis by auto
  qed
  also have "\<dots> \<longleftrightarrow> bases d = bases a
     \<and> (\<forall>i < length a. exponent_values d ! i = exponent_values a ! i * sint num div sint den)"
    by (auto simp: bases_eq_iff exponent_values_nth)
  finally show ?thesis using den ex by auto
qed

lemma dimension_exponent_defined:
  "dimension_exponent a num den \<noteq> None \<longleftrightarrow>
     den \<noteq> 0 \<and> (\<forall>i < length a. exact_power (exponent_values a ! i) (sint num) (sint den))"
proof
  assume "dimension_exponent a num den \<noteq> None"
  then obtain d where "dimension_exponent a num den = Some d" by blast
  then show "den \<noteq> 0 \<and> (\<forall>i < length a. exact_power (exponent_values a ! i) (sint num) (sint den))"
    by (simp add: dimension_exponent_Some_iff)
next
  assume h: "den \<noteq> 0 \<and> (\<forall>i < length a. exact_power (exponent_values a ! i) (sint num) (sint den))"
  then have valid: "is_valid_power (exponents a) num den = Some True"
    by (simp add: is_valid_power_True_iff
        all_exponent_values_iff [where P = "\<lambda>x. exact_power x (sint num) (sint den)"])
  have "(case int_times (snd x) num of None \<Rightarrow> None | Some p \<Rightarrow> int_divide p den) \<noteq> None"
    if "x \<in> set a" for x
  proof -
    from that obtain i where i: "i < length a" "x = a ! i" by (auto simp: in_set_conv_nth)
    with h have "exact_power (sint (snd x)) (sint num) (sint den)"
      by (simp add: exponent_values_nth)
    then have e: "exact_power (sint (snd x)) (sint num) (sint den)"
      and q: "in_int_range (sint (snd x) * sint num div sint den)"
      by (simp_all add: exact_power_def)
    from h have den: "den \<noteq> 0" by simp
    from sint_word_of_int [OF q] power_exponent_Some_iff [OF den e]
    have "(case int_times (snd x) num of None \<Rightarrow> None | Some p \<Rightarrow> int_divide p den)
        = Some (word_of_int (sint (snd x) * sint num div sint den))"
      by blast
    then show ?thesis by (simp del: not_None_eq)
  qed
  then have "those (map (\<lambda>(b, e). map_option (Pair b)
        (case int_times e num of None \<Rightarrow> None | Some p \<Rightarrow> int_divide p den)) a) \<noteq> None"
    by (simp add: those_map_defined_iff case_prod_beta del: not_None_eq)
  then show "dimension_exponent a num den \<noteq> None"
    using valid by (simp add: dimension_exponent_def del: not_None_eq)
qed

lemma dimension_product_defined:
  "dimension_product a b \<noteq> None \<longleftrightarrow>
     bases a = bases b
     \<and> (\<forall>i < length a. in_int_range (exponent_values a ! i + exponent_values b ! i))"
proof
  assume "dimension_product a b \<noteq> None"
  then obtain c where "dimension_product a b = Some c" by blast
  then show "bases a = bases b
     \<and> (\<forall>i < length a. in_int_range (exponent_values a ! i + exponent_values b ! i))"
    by (simp add: dimension_product_Some_iff)
next
  assume h: "bases a = bases b
     \<and> (\<forall>i < length a. in_int_range (exponent_values a ! i + exponent_values b ! i))"
  then have len: "length b = length a" by (simp add: bases_eq_iff)
  have "int_plus (snd (fst x)) (snd (snd x)) \<noteq> None" if "x \<in> set (zip a b)" for x
  proof -
    from that len obtain i where i: "i < length a" "x = (a ! i, b ! i)"
      by (auto simp: in_set_conv_nth)
    with h len have "in_int_range (sint (snd (fst x)) + sint (snd (snd x)))"
      by (simp add: exponent_values_nth)
    then show ?thesis by (simp add: int_plus_def int_constant_None_iff del: not_None_eq)
  qed
  then have "those (map (\<lambda>((b, l), (c, r)). map_option (Pair b) (int_plus l r)) (zip a b)) \<noteq> None"
    by (simp add: those_map_defined_iff case_prod_beta del: not_None_eq)
  then show "dimension_product a b \<noteq> None"
    using h by (simp add: dimension_product_def del: not_None_eq)
qed

lemma dimension_product_commute: "dimension_product a b = dimension_product b a"
proof (rule option_eqI)
  fix c
  show "dimension_product a b = Some c \<longleftrightarrow> dimension_product b a = Some c"
  proof (cases "bases a = bases b")
    case False
    then show ?thesis by (auto simp: dimension_product_Some_iff)
  next
    case True
    then have "length b = length a" by (simp add: bases_eq_iff)
    with True show ?thesis by (simp add: dimension_product_Some_iff add.commute)
  qed
qed

lemma dimension_product_assoc:
  assumes ab: "dimension_product a b = Some x" and bc: "dimension_product b c = Some y"
  shows "dimension_product x c = dimension_product a y"
proof (rule option_eqI)
  fix z
  from ab have x: "bases a = bases b" "bases x = bases a"
    "\<forall>i < length a. exponent_values x ! i = exponent_values a ! i + exponent_values b ! i"
    by (simp_all add: dimension_product_Some_iff)
  from bc have y: "bases b = bases c" "bases y = bases b"
    "\<forall>i < length b. exponent_values y ! i = exponent_values b ! i + exponent_values c ! i"
    by (simp_all add: dimension_product_Some_iff)
  have len: "length b = length a" "length c = length a" "length x = length a" "length y = length a"
    using x(1,2) y(1,2) by (simp_all add: bases_eq_iff)
  show "dimension_product x c = Some z \<longleftrightarrow> dimension_product a y = Some z"
    using x y len by (simp add: dimension_product_Some_iff add.assoc)
qed

lemma bases_scalar [simp]: "bases (scalar_dimension_type bs) = bs"
  by (simp add: scalar_dimension_type_def bases_def comp_def)

lemma exponent_values_scalar:
  "i < length bs \<Longrightarrow> exponent_values (scalar_dimension_type bs) ! i = 0"
  by (simp add: scalar_dimension_type_def exponent_values_def exponents_def)

lemma exact_power_inverse: "in_int_range e \<Longrightarrow> exact_power e (- 1) 1 \<longleftrightarrow> e \<noteq> INT_MIN"
  by (auto simp: exact_power_def in_int_range_def INT_MIN_def INT_MAX_def)

lemma in_int_range_exponent_values [simp]:
  "i < length a \<Longrightarrow> in_int_range (exponent_values a ! i)"
  by (simp add: exponent_values_nth)

lemma dimension_inverse_Some_iff:
  "dimension_inverse a = Some d \<longleftrightarrow>
     bases d = bases a
     \<and> (\<forall>i < length a. exponent_values a ! i \<noteq> INT_MIN
           \<and> exponent_values d ! i = - exponent_values a ! i)"
  by (auto simp: dimension_inverse_def dimension_exponent_Some_iff exact_power_inverse)

lemma dimension_inverse_defined:
  "dimension_inverse a \<noteq> None \<longleftrightarrow> (\<forall>i < length a. exponent_values a ! i \<noteq> INT_MIN)"
  by (simp add: dimension_inverse_def dimension_exponent_defined exact_power_inverse
      del: not_None_eq)

lemma dimension_product_inverse:
  assumes "dimension_inverse a = Some d"
  shows "dimension_product a d = Some (scalar_dimension_type (bases a))"
proof -
  from assms have d: "bases d = bases a"
    "\<forall>i < length a. exponent_values d ! i = - exponent_values a ! i"
    by (simp_all add: dimension_inverse_Some_iff)
  have "in_int_range 0" by (simp add: in_int_range_def INT_MIN_def INT_MAX_def)
  with d show ?thesis
    by (simp add: dimension_product_Some_iff exponent_values_scalar)
qed

lemmas int_arith_defs = int_plus_def int_times_def int_divide_def int_modulo_def int_constant_def
  in_int_range_def INT_MIN_def INT_MAX_def cpp_div_def cpp_mod_def

lemma empty_dimension_iff:
  "empty_dimension d \<longleftrightarrow> (\<forall>i < length d. exponent_values d ! i = 0)"
proof -
  have "exact_power e 0 1" for e
    by (simp add: exact_power_def in_int_range_def INT_MIN_def INT_MAX_def)
  then show ?thesis
    by (simp add: empty_dimension_def dimension_exponent_Some_iff)
qed

lemma quantity_plus_absolute_eq:
  "quantity_plus_absolute q a =
     (if empty_dimension (a_dimension a) \<and> q_dimension q = a_dimension a
      then Some (absolute_in_place (a_dimension a) (quantity_get_standard q + absolute_get_standard a))
      else None)"
  by (simp add: quantity_plus_absolute_def quantity_plus_value_def quantity_to_value_def
      quantity_in_place_def quantity_get_standard_def is_scalar_def)

lemma dimension_quotient_Some_iff:
  "dimension_quotient a b = Some c \<longleftrightarrow>
     bases a = bases b \<and> bases c = bases a
     \<and> (\<forall>i < length a. exponent_values b ! i \<noteq> INT_MIN
           \<and> in_int_range (exponent_values a ! i - exponent_values b ! i)
           \<and> exponent_values c ! i = exponent_values a ! i - exponent_values b ! i)"
proof (cases "dimension_inverse b")
  case None
  then have "\<not> (\<forall>i < length b. exponent_values b ! i \<noteq> INT_MIN)"
    using dimension_inverse_defined [of b] by simp
  moreover have "length b = length a" if "bases a = bases b"
    using that by (simp add: bases_eq_iff)
  ultimately have "\<not> (bases a = bases b
      \<and> (\<forall>i < length a. exponent_values b ! i \<noteq> INT_MIN
           \<and> in_int_range (exponent_values a ! i - exponent_values b ! i)
           \<and> exponent_values c ! i = exponent_values a ! i - exponent_values b ! i))"
    by auto
  with None show ?thesis by (auto simp: dimension_quotient_def)
next
  case (Some d)
  then have d: "bases d = bases b"
    "\<forall>i < length b. exponent_values b ! i \<noteq> INT_MIN
        \<and> exponent_values d ! i = - exponent_values b ! i"
    by (simp_all add: dimension_inverse_Some_iff)
  have q: "dimension_quotient a b = dimension_product a d"
    using Some by (simp add: dimension_quotient_def)
  show ?thesis
  proof (cases "bases a = bases b")
    case False
    with d(1) show ?thesis by (simp add: q dimension_product_Some_iff)
  next
    case True
    then have "length b = length a" by (simp add: bases_eq_iff)
    with True d show ?thesis by (auto simp: q dimension_product_Some_iff)
  qed
qed



section \<open>Properties of the library\<close>

text \<open>
  C1, as amended. The product of two dimensions exists exactly when they are over the
  identical ordered basis and, at every basis position, the sum of the two exponents is
  in the range of \<^verbatim>\<open>int\<close>. When it exists it is over that basis and its exponent at
  each position is that sum. Over differing bases, or when a sum leaves the range, no
  product exists.
\<close>

theorem dimension_product_adds_exponents:
  "(dimension_product A B \<noteq> None \<longleftrightarrow>
      bases A = bases B
      \<and> (\<forall>i < length A. in_int_range (exponent_values A ! i + exponent_values B ! i)))
   \<and> (\<forall>C. dimension_product A B = Some C \<longrightarrow>
         bases C = bases A
         \<and> (\<forall>i < length A.
               exponent_values C ! i = exponent_values A ! i + exponent_values B ! i))"
proof (intro conjI)
  show "dimension_product A B \<noteq> None \<longleftrightarrow>
      bases A = bases B
      \<and> (\<forall>i < length A. in_int_range (exponent_values A ! i + exponent_values B ! i))"
    by (rule dimension_product_defined)
  show "\<forall>C. dimension_product A B = Some C \<longrightarrow>
         bases C = bases A
         \<and> (\<forall>i < length A.
               exponent_values C ! i = exponent_values A ! i + exponent_values B ! i)"
    by (simp add: dimension_product_Some_iff)
qed

theorem dimension_product_adds_exponents_witness:
  "dimension_product [(''length'', 1), (''time'', - 2)] [(''length'', 2), (''time'', 1)]
     = Some [(''length'', 3), (''time'', - 1)]
   \<and> bases [(''length'', 3), (''time'', - 1)] = bases [(''length'', 1), (''time'', - 2)]
   \<and> exponent_values [(''length'', 3), (''time'', - 1)] ! 1
       = exponent_values [(''length'', 1), (''time'', - 2)] ! 1
         + exponent_values [(''length'', 2), (''time'', 1)] ! 1
   \<and> bases [(''length'', 1), (''time'', - 2)] \<noteq> bases [(''time'', 1), (''length'', 2)]
   \<and> dimension_product [(''length'', 1), (''time'', - 2)] [(''time'', 1), (''length'', 2)] = None"
proof -
  let ?A = "[(''length'', 1), (''time'', - 2)] :: string dimension"
  let ?B = "[(''length'', 2), (''time'', 1)] :: string dimension"
  let ?C = "[(''length'', 3), (''time'', - 1)] :: string dimension"
  let ?B' = "[(''time'', 1), (''length'', 2)] :: string dimension"
  have computed: "dimension_product ?A ?B = Some ?C"
    by (simp add: dimension_product_def bases_def int_arith_defs)
  with dimension_product_adds_exponents [of ?A ?B]
  have "bases ?C = bases ?A
      \<and> (\<forall>i < length ?A. exponent_values ?C ! i = exponent_values ?A ! i + exponent_values ?B ! i)"
    by blast
  then have sums: "bases ?C = bases ?A"
    "exponent_values ?C ! 1 = exponent_values ?A ! 1 + exponent_values ?B ! 1"
    by (simp_all add: All_less_Suc)
  have differ: "bases ?A \<noteq> bases ?B'" by (simp add: bases_def)
  with dimension_product_adds_exponents [of ?A ?B']
  have "dimension_product ?A ?B' = None" by blast
  with computed sums differ show ?thesis by blast
qed

text \<open>
  C1 as stated fails: the exponents \<open>INT_MAX\<close> and 1 over one basis have no product.
\<close>

theorem dimension_product_overflow_counterexample:
  "bases [(''length'', 2147483647)] = bases [(''length'', 1)]
   \<and> dimension_product [(''length'', 2147483647)] [(''length'', 1)] = None"
  by (simp add: dimension_product_def bases_def int_arith_defs)

text \<open>
  C2, as amended. The rational power of a dimension exists exactly when the denominator
  is nonzero and, at every basis position, exponent times numerator is in the range of
  \<^verbatim>\<open>int\<close>, the denominator divides it, and the quotient is in the range of \<^verbatim>\<open>int\<close>.
  When it exists it is over the same basis and each of its exponents \<open>q\<close> is the exact
  quotient: \<open>q * den\<close> is the exponent times \<open>num\<close>. Otherwise the power is rejected:
  there is no rounded result.
\<close>

theorem dimension_exponent_defined_iff:
  "(dimension_exponent A num den \<noteq> None \<longleftrightarrow>
      den \<noteq> 0
      \<and> (\<forall>i < length A.
            in_int_range (exponent_values A ! i * sint num)
            \<and> sint den dvd exponent_values A ! i * sint num
            \<and> in_int_range (exponent_values A ! i * sint num div sint den)))
   \<and> (\<forall>D. dimension_exponent A num den = Some D \<longrightarrow>
         bases D = bases A
         \<and> (\<forall>i < length A.
               exponent_values D ! i * sint den = exponent_values A ! i * sint num
               \<and> exponent_values D ! i = exponent_values A ! i * sint num div sint den))"
proof (intro conjI)
  show "dimension_exponent A num den \<noteq> None \<longleftrightarrow>
      den \<noteq> 0
      \<and> (\<forall>i < length A.
            in_int_range (exponent_values A ! i * sint num)
            \<and> sint den dvd exponent_values A ! i * sint num
            \<and> in_int_range (exponent_values A ! i * sint num div sint den))"
    unfolding dimension_exponent_defined exact_power_def ..
  show "\<forall>D. dimension_exponent A num den = Some D \<longrightarrow>
         bases D = bases A
         \<and> (\<forall>i < length A.
               exponent_values D ! i * sint den = exponent_values A ! i * sint num
               \<and> exponent_values D ! i = exponent_values A ! i * sint num div sint den)"
  proof (intro allI impI)
    fix D assume "dimension_exponent A num den = Some D"
    then have D: "bases D = bases A"
      "\<forall>i < length A. exact_power (exponent_values A ! i) (sint num) (sint den)
           \<and> exponent_values D ! i = exponent_values A ! i * sint num div sint den"
      by (simp_all add: dimension_exponent_Some_iff)
    have "exponent_values D ! i * sint den = exponent_values A ! i * sint num" if "i < length A" for i
    proof -
      from D(2) that have "sint den dvd exponent_values A ! i * sint num"
        "exponent_values D ! i = exponent_values A ! i * sint num div sint den"
        by (simp_all add: exact_power_def)
      then show ?thesis by simp
    qed
    with D show "bases D = bases A
         \<and> (\<forall>i < length A.
               exponent_values D ! i * sint den = exponent_values A ! i * sint num
               \<and> exponent_values D ! i = exponent_values A ! i * sint num div sint den)"
      by blast
  qed
qed

theorem dimension_exponent_defined_iff_witness:
  "dimension_exponent [(''length'', 2), (''time'', - 4)] 1 2 \<noteq> None
   \<and> dimension_exponent [(''length'', 2), (''time'', - 4)] 1 2 = Some [(''length'', 1), (''time'', - 2)]
   \<and> bases [(''length'', 1), (''time'', - 2)] = bases [(''length'', 2), (''time'', - 4)]
   \<and> exponent_values [(''length'', 1), (''time'', - 2)] ! 1 * sint (2 :: cint)
       = exponent_values [(''length'', 2), (''time'', - 4)] ! 1 * sint (1 :: cint)
   \<and> dimension_exponent [(''length'', - 3)] 2 (- 3) = Some [(''length'', 2)]
   \<and> dimension_exponent [(''length'', 1), (''time'', - 4)] 1 2 = None
   \<and> dimension_exponent [(''length'', 2)] 1 0 = None"
proof -
  let ?A = "[(''length'', 2), (''time'', - 4)] :: string dimension"
  let ?D = "[(''length'', 1), (''time'', - 2)] :: string dimension"
  let ?A' = "[(''length'', 1), (''time'', - 4)] :: string dimension"
  have hyp: "(2 :: cint) \<noteq> 0
      \<and> (\<forall>i < length ?A.
            in_int_range (exponent_values ?A ! i * sint (1 :: cint))
            \<and> sint (2 :: cint) dvd exponent_values ?A ! i * sint (1 :: cint)
            \<and> in_int_range (exponent_values ?A ! i * sint (1 :: cint) div sint (2 :: cint)))"
    by (simp add: exponent_values_def exponents_def in_int_range_def INT_MIN_def INT_MAX_def
        All_less_Suc)
  with dimension_exponent_defined_iff [of ?A 1 2]
  have defined: "dimension_exponent ?A 1 2 \<noteq> None" by blast
  have computed: "dimension_exponent ?A 1 2 = Some ?D"
    "dimension_exponent [(''length'', - 3)] 2 (- 3) = Some [(''length'', 2)]"
    by (simp_all add: dimension_exponent_def is_valid_power_def exponents_def int_arith_defs)
  with dimension_exponent_defined_iff [of ?A 1 2]
  have "bases ?D = bases ?A
      \<and> (\<forall>i < length ?A. exponent_values ?D ! i * sint (2 :: cint)
              = exponent_values ?A ! i * sint (1 :: cint)
            \<and> exponent_values ?D ! i = exponent_values ?A ! i * sint (1 :: cint) div sint (2 :: cint))"
    by blast
  then have exact: "bases ?D = bases ?A"
    "exponent_values ?D ! 1 * sint (2 :: cint) = exponent_values ?A ! 1 * sint (1 :: cint)"
    by (simp_all add: All_less_Suc)
  have "\<not> sint (2 :: cint) dvd exponent_values ?A' ! 0 * sint (1 :: cint)"
    by (simp add: exponent_values_def exponents_def)
  with dimension_exponent_defined_iff [of ?A' 1 2]
  have odd: "dimension_exponent ?A' 1 2 = None" by fastforce
  from dimension_exponent_defined_iff [of "[(''length'', 2)]" 1 0]
  have zero: "dimension_exponent [(''length'', 2)] 1 0 = None" by blast
  from defined computed exact odd zero show ?thesis by blast
qed

text \<open>
  C2 as stated fails: the denominator 1 divides \<open>65536 * 65536\<close>, which is no
  \<^verbatim>\<open>int\<close>, and the power is rejected.
\<close>

theorem dimension_exponent_overflow_counterexample:
  "(1 :: cint) \<noteq> 0
   \<and> sint (1 :: cint) dvd exponent_values [(''length'', 65536)] ! 0 * sint (65536 :: cint)
   \<and> dimension_exponent [(''length'', 65536)] 65536 1 = None"
  by (simp add: dimension_exponent_def is_valid_power_def exponents_def int_arith_defs)

text \<open>
  C7, as amended. The inverse of a dimension exists exactly when none of its exponents is
  \<open>INT_MIN\<close>. When it exists, the product of the dimension with its inverse and the
  quotient of the dimension by itself are the scalar dimension of its basis; when it
  does not, the quotient does not exist either.
\<close>

theorem dimension_product_inverse_scalar:
  "(dimension_inverse A \<noteq> None \<longleftrightarrow> (\<forall>i < length A. exponent_values A ! i \<noteq> INT_MIN))
   \<and> (\<forall>I. dimension_inverse A = Some I \<longrightarrow>
         dimension_product A I = Some (scalar_dimension_type (bases A))
         \<and> dimension_quotient A A = Some (scalar_dimension_type (bases A)))
   \<and> (dimension_inverse A = None \<longrightarrow> dimension_quotient A A = None)"
proof (intro conjI allI impI)
  show "dimension_inverse A \<noteq> None \<longleftrightarrow> (\<forall>i < length A. exponent_values A ! i \<noteq> INT_MIN)"
    by (rule dimension_inverse_defined)
next
  fix I assume I: "dimension_inverse A = Some I"
  then show "dimension_product A I = Some (scalar_dimension_type (bases A))"
    by (rule dimension_product_inverse)
  with I show "dimension_quotient A A = Some (scalar_dimension_type (bases A))"
    by (simp add: dimension_quotient_def)
next
  assume "dimension_inverse A = None"
  then show "dimension_quotient A A = None" by (simp add: dimension_quotient_def)
qed

theorem dimension_product_inverse_scalar_witness:
  "dimension_inverse [(''length'', 1), (''time'', - 2)] = Some [(''length'', - 1), (''time'', 2)]
   \<and> dimension_product [(''length'', 1), (''time'', - 2)] [(''length'', - 1), (''time'', 2)]
        = Some [(''length'', 0), (''time'', 0)]
   \<and> dimension_quotient [(''length'', 1), (''time'', - 2)] [(''length'', 1), (''time'', - 2)]
        = Some [(''length'', 0), (''time'', 0)]"
proof -
  let ?A = "[(''length'', 1), (''time'', - 2)] :: string dimension"
  let ?I = "[(''length'', - 1), (''time'', 2)] :: string dimension"
  have computed: "dimension_inverse ?A = Some ?I"
    by (simp add: dimension_inverse_def dimension_exponent_def is_valid_power_def exponents_def
        int_arith_defs)
  with dimension_product_inverse_scalar [of ?A]
  have "dimension_product ?A ?I = Some (scalar_dimension_type (bases ?A))
      \<and> dimension_quotient ?A ?A = Some (scalar_dimension_type (bases ?A))"
    by blast
  with computed show ?thesis by (simp add: scalar_dimension_type_def bases_def)
qed

text \<open>
  C7 as stated fails: a dimension with the exponent \<open>INT_MIN\<close> has no inverse and no
  quotient by itself.
\<close>

theorem dimension_inverse_overflow_counterexample:
  "dimension_inverse [(''length'', - 2147483648)] = None
   \<and> dimension_quotient [(''length'', - 2147483648)] [(''length'', - 2147483648)] = None"
  by (simp add: dimension_quotient_def dimension_inverse_def dimension_exponent_def
      is_valid_power_def exponents_def int_arith_defs)

text \<open>
  C8, as amended. The dimension product is commutative: both sides are the same
  dimension, or both are rejected. It is associative where the two inner products
  exist: then \<open>(A * B) * C\<close> and \<open>A * (B * C)\<close> are the same dimension, or both are
  rejected.
\<close>

theorem dimension_product_commutative_associative:
  "dimension_product A B = dimension_product B A
   \<and> (\<forall>AB BC. dimension_product A B = Some AB \<and> dimension_product B C = Some BC \<longrightarrow>
         dimension_product AB C = dimension_product A BC)"
  using dimension_product_commute [of A B] dimension_product_assoc [of A B _ C] by blast

theorem dimension_product_commutative_associative_witness:
  "dimension_product [(''length'', 1), (''time'', - 2)] [(''length'', 2), (''time'', 1)]
     = Some [(''length'', 3), (''time'', - 1)]
   \<and> dimension_product [(''length'', 2), (''time'', 1)] [(''length'', 1), (''time'', - 2)]
     = Some [(''length'', 3), (''time'', - 1)]
   \<and> dimension_product [(''length'', 2), (''time'', 1)] [(''length'', 0), (''time'', 5)]
     = Some [(''length'', 2), (''time'', 6)]
   \<and> dimension_product [(''length'', 3), (''time'', - 1)] [(''length'', 0), (''time'', 5)]
     = Some [(''length'', 3), (''time'', 4)]
   \<and> dimension_product [(''length'', 1), (''time'', - 2)] [(''length'', 2), (''time'', 6)]
     = Some [(''length'', 3), (''time'', 4)]"
proof -
  let ?A = "[(''length'', 1), (''time'', - 2)] :: string dimension"
  let ?B = "[(''length'', 2), (''time'', 1)] :: string dimension"
  let ?C = "[(''length'', 0), (''time'', 5)] :: string dimension"
  let ?AB = "[(''length'', 3), (''time'', - 1)] :: string dimension"
  let ?BC = "[(''length'', 2), (''time'', 6)] :: string dimension"
  have ab: "dimension_product ?A ?B = Some ?AB" and bc: "dimension_product ?B ?C = Some ?BC"
    and abc: "dimension_product ?AB ?C = Some [(''length'', 3), (''time'', 4)]"
    by (simp_all add: dimension_product_def bases_def int_arith_defs)
  from dimension_product_commutative_associative [of ?A ?B ?C] ab bc
  have "dimension_product ?B ?A = Some ?AB" "dimension_product ?AB ?C = dimension_product ?A ?BC"
    by (metis, blast)
  with ab bc abc show ?thesis by simp
qed

text \<open>
  C8 as stated fails for \<open>INT_MAX\<close>, 1 and -1 over one basis: the product of the first
  two is rejected, and with it the left side, while the right side is the first
  dimension.
\<close>

theorem dimension_product_associative_overflow_counterexample:
  "dimension_product [(''length'', 2147483647)] [(''length'', 1)] = None
   \<and> dimension_product [(''length'', 1)] [(''length'', - 1)] = Some [(''length'', 0)]
   \<and> dimension_product [(''length'', 2147483647)] [(''length'', 0)] = Some [(''length'', 2147483647)]"
  by (simp add: dimension_product_def bases_def int_arith_defs)

text \<open>
  C3. A quantity on the left of an absolute on the right, both of the length dimension
  with exponent 1: overload 3 is constrained by \<^verbatim>\<open>is_scalar\<close>, so the sum is rejected,
  while the same operands the other way round give the absolute with the sum of the two
  standard values, and over a scalar dimension overload 3 gives that sum as well.
\<close>

theorem quantity_plus_absolute_length_rejected:
  "quantity_plus_absolute (quantity_in_place [(''length'', 1)] (1 :: rat))
       (absolute_in_place [(''length'', 1)] 2) = None
   \<and> absolute_plus_quantity (absolute_in_place [(''length'', 1)] 2)
       (quantity_in_place [(''length'', 1)] (1 :: rat)) = Some (absolute_in_place [(''length'', 1)] 3)
   \<and> quantity_plus_absolute (quantity_in_place [(''length'', 0)] (1 :: rat))
       (absolute_in_place [(''length'', 0)] 2) = Some (absolute_in_place [(''length'', 0)] 3)"
  by (simp add: quantity_plus_absolute_eq empty_dimension_iff exponent_values_def exponents_def
      absolute_plus_quantity_def absolute_in_place_def quantity_in_place_def
      absolute_get_standard_def quantity_get_standard_def)







text \<open>
  C6. For two absolutes of one dimension the difference is a quantity of that dimension,
  and adding it to the second absolute gives the first one back, also under
  \<^verbatim>\<open>operator==\<close>.
\<close>

theorem absolute_difference_added_back:
  fixes a1 a2 :: "('b, 'a :: ab_group_add) absolute"
  assumes "a_dimension a1 = a_dimension a2"
  shows "\<exists>q s. absolute_minus a1 a2 = Some q \<and> q_dimension q = a_dimension a1
           \<and> absolute_plus_quantity a2 q = Some s \<and> s = a1 \<and> absolute_eq s a1 = Some True"
  using assms
  by (simp add: absolute_minus_def absolute_plus_quantity_def absolute_eq_def
      quantity_in_place_def absolute_in_place_def quantity_get_standard_def
      absolute_get_standard_def)

theorem absolute_difference_added_back_witness:
  "a_dimension (absolute_in_place [(''temperature'', 1)] (300 :: int))
     = a_dimension (absolute_in_place [(''temperature'', 1)] (273 :: int))
   \<and> absolute_minus (absolute_in_place [(''temperature'', 1)] (300 :: int))
        (absolute_in_place [(''temperature'', 1)] 273)
       = Some (quantity_in_place [(''temperature'', 1)] 27)
   \<and> absolute_plus_quantity (absolute_in_place [(''temperature'', 1)] (273 :: int))
        (quantity_in_place [(''temperature'', 1)] 27)
       = Some (absolute_in_place [(''temperature'', 1)] 300)
   \<and> absolute_eq (absolute_in_place [(''temperature'', 1)] (300 :: int))
        (absolute_in_place [(''temperature'', 1)] 300) = Some True"
proof -
  let ?a1 = "absolute_in_place [(''temperature'', 1)] (300 :: int)"
  let ?a2 = "absolute_in_place [(''temperature'', 1)] (273 :: int)"
  have same: "a_dimension ?a1 = a_dimension ?a2"
    by (simp add: absolute_in_place_def)
  from absolute_difference_added_back [OF same] obtain q s where
    "absolute_minus ?a1 ?a2 = Some q" "absolute_plus_quantity ?a2 q = Some s" "s = ?a1"
    "absolute_eq s ?a1 = Some True" by blast
  moreover have "absolute_minus ?a1 ?a2 = Some (quantity_in_place [(''temperature'', 1)] 27)"
    by (simp add: absolute_minus_def absolute_in_place_def absolute_get_standard_def)
  ultimately show ?thesis using same by simp
qed

text \<open>
  C9. \<^verbatim>\<open>to_quantity\<close> and \<^verbatim>\<open>to_absolute\<close> are inverse to each other and keep the
  standard value and the dimension.
\<close>

theorem to_quantity_to_absolute_inverse:
  "to_quantity (to_absolute q) = q \<and> to_absolute (to_quantity a) = a
   \<and> absolute_get_standard (to_absolute q) = quantity_get_standard q
   \<and> quantity_get_standard (to_quantity a) = absolute_get_standard a
   \<and> a_dimension (to_absolute q) = q_dimension q
   \<and> q_dimension (to_quantity a) = a_dimension a"
  by (simp add: to_quantity_def to_absolute_def quantity_in_place_def absolute_in_place_def
      quantity_get_standard_def absolute_get_standard_def)

text \<open>
  C10. A default-constructed quantity and a default-constructed absolute of any dimension
  have the value-initialised magnitude, zero, as standard value.
\<close>

theorem default_constructed_standard_value:
  "quantity_get_standard (quantity_default D :: ('b, 'a :: zero) quantity) = 0
   \<and> absolute_get_standard (absolute_default D :: ('b, 'a :: zero) absolute) = 0
   \<and> q_dimension (quantity_default D :: ('b, 'a :: zero) quantity) = D
   \<and> a_dimension (absolute_default D :: ('b, 'a :: zero) absolute) = D"
  by (simp add: quantity_get_standard_def quantity_default_def absolute_get_standard_def
      absolute_default_def value_type_init_def)

end
